theory Spec2Isabelle
  imports Main
begin

section \<open>ButtonGroup: selection state of a group of toggleable Buttons\<close>

text \<open>
  A shallow embedding of the ButtonGroup component (the class \<open>ButtonGroup\<close> with its
  helpers \<open>isChecked\<close> and \<open>findDefaultChecked\<close>). JavaScript numbers that are indices
  are integers here (\<open>-1\<close> is the "not found" value of \<open>indexOf\<close>); an optional prop is
  an \<open>option\<close>, \<open>None\<close> being \<open>undefined\<close>.
\<close>

subsection \<open>Data\<close>

text \<open>The prop types \<open>mode\<close>, \<open>size\<close> and \<open>variant\<close>.\<close>

datatype Mode = Checkbox | Radio

datatype Size = Small | Medium | Large | Jumbo

datatype Variant = Danger | Success | Warning

text \<open>The type \<open>number | Array<number>\<close> of \<open>checked\<close> and \<open>defaultChecked\<close>.\<close>

datatype Checked = Index int | Indices "int list"

text \<open>
  A child element: the props of a Button that the group reads or writes, and
  \<open>btn_defaultProps_size\<close>, the \<open>size\<close> entry of the \<open>defaultProps\<close> of the child's
  element type, which React's \<open>cloneElement\<close> consults.
\<close>

record Button =
  btn_aria_checked :: "bool option"
  btn_data_index :: "int option"
  btn_defaultChecked :: bool
  btn_disabled :: bool
  btn_key :: "int option"
  btn_primary :: bool
  btn_role :: "Mode option"
  btn_size :: "Size option"
  btn_variant :: "Variant option"
  btn_defaultProps_size :: "Size option"

text \<open>
  The prop \<open>children\<close> (a \<open>React$Node\<close>): nothing, one element that is not wrapped in
  an array, or an array of elements.
\<close>

datatype Node = NoChildren | OneChild Button | ChildArray "Button list"

text \<open>
  The component's state \<open>{ checked }\<close>. The field is never \<open>undefined\<close>: the
  initialiser ends in \<open>|| -1\<close>, and the updater of \<open>handleClick\<close> assigns a number
  or an array.
\<close>

record State =
  state_checked :: Checked

text \<open>
  The click event, as far as \<open>handleClick\<close> reads it:
  \<open>parseInt(event.currentTarget.getAttribute('data-index'))\<close>.
\<close>

record Event =
  target_data_index :: int

text \<open>
  A callback supplied by the caller (\<open>onClick\<close>, \<open>onChange\<close>). It receives the event,
  runs while the component holds the given state, and acts on the caller's world \<open>'w\<close>.
\<close>

type_synonym 'w handler = "Event \<Rightarrow> State \<Rightarrow> 'w \<Rightarrow> 'w"

text \<open>
  The props of the group. \<open>checked\<close> is \<open>None\<close> when the props object has no own
  property of that name, and \<open>Some v\<close> when it has one, of value \<open>v\<close> (which may be
  \<open>undefined\<close>); \<open>size_prop\<close> is the prop \<open>size\<close>.
\<close>

record 'w Props =
  checked :: "Checked option option"
  children :: Node
  defaultChecked :: "Checked option"
  disabled :: bool
  mode :: "Mode option"
  onChange :: "'w handler option"
  onClick :: "'w handler option"
  size_prop :: "Size option"
  variant :: "Variant option"

text \<open>A mounted component: the props of the latest render and the state.\<close>

record 'w Instance =
  props :: "'w Props"
  state :: State

subsection \<open>Array and value helpers of JavaScript\<close>

text \<open>\<open>Array.prototype.indexOf\<close>: the first position of the value, or \<open>-1\<close>.\<close>

fun indexOf :: "'a list \<Rightarrow> 'a \<Rightarrow> int" where
  "indexOf [] v = -1"
| "indexOf (x # xs) v =
     (if x = v then 0 else (let r = indexOf xs v in if r = -1 then -1 else r + 1))"

text \<open>\<open>xs.push(v)\<close> and \<open>xs.splice(i, 1)\<close> (for a position \<open>i\<close> that \<open>indexOf\<close> found).\<close>

definition push :: "'a list \<Rightarrow> 'a \<Rightarrow> 'a list" where
  "push xs v = xs @ [v]"

definition splice1 :: "'a list \<Rightarrow> int \<Rightarrow> 'a list" where
  "splice1 xs i = take (nat i) xs @ drop (Suc (nat i)) xs"

text \<open>\<open>xs[0]\<close>, which is \<open>undefined\<close> on the empty array.\<close>

definition first :: "'a list \<Rightarrow> 'a option" where
  "first xs = (case xs of [] \<Rightarrow> None | x # _ \<Rightarrow> Some x)"

text \<open>
  Truthiness of a value of type \<open>number | Array<number> | void\<close>: \<open>undefined\<close> and the
  number \<open>0\<close> are falsy, every array is truthy (the empty one too).
\<close>

fun truthy :: "Checked option \<Rightarrow> bool" where
  "truthy None = False"
| "truthy (Some (Index n)) = (n \<noteq> 0)"
| "truthy (Some (Indices xs)) = True"

text \<open>\<open>a || b\<close> for a right operand that is not \<open>undefined\<close>.\<close>

definition js_or :: "Checked option \<Rightarrow> Checked \<Rightarrow> Checked" where
  "js_or a b = (case a of None \<Rightarrow> b | Some v \<Rightarrow> if truthy a then v else b)"

text \<open>
  Modelled from the spec: \<open>toArray\<close> of \<open>utils/collections\<close>, which \<open>handleClick\<close>
  imports and whose source is not part of the files at hand. The spec's Selection is
  "either a single index or a set of indices": an array is taken as it is, a single
  index becomes the one-element array.
\<close>

fun toArray :: "Checked \<Rightarrow> int list" where
  "toArray (Index n) = [n]"
| "toArray (Indices xs) = xs"

subsection \<open>isChecked and findDefaultChecked\<close>

fun isChecked :: "Checked option \<Rightarrow> int \<Rightarrow> bool" where
  "isChecked (Some (Indices xs)) index = (indexOf xs index \<noteq> -1)"
| "isChecked (Some (Index n)) index = (n = index)"
| "isChecked None index = False"

text \<open>
  The scan of checkbox mode: \<open>children.map((button, index) => ...)\<close>, which pushes the
  index of every default-checked child; \<open>index\<close> is the position of the head of the
  remaining children.
\<close>

fun addDefaultIndices :: "Button list \<Rightarrow> int \<Rightarrow> int list \<Rightarrow> int list" where
  "addDefaultIndices [] index checked0 = checked0"
| "addDefaultIndices (button # rest) index checked0 =
     addDefaultIndices rest (index + 1)
       (if btn_defaultChecked button then push checked0 index else checked0)"

definition findDefaultChecked :: "'w Props \<Rightarrow> Checked" where
  "findDefaultChecked p =
     (if mode p = Some Checkbox then
        (case children p of
           ChildArray bs \<Rightarrow> Indices (addDefaultIndices bs 0 [])
         | _ \<Rightarrow> Indices [])
      else
        (case children p of
           ChildArray bs \<Rightarrow>
             (let index = (case find btn_defaultChecked bs of
                             None \<Rightarrow> -1
                           | Some button \<Rightarrow> indexOf bs button)
              in if index \<noteq> -1 then Indices [index] else Indices [])
         | _ \<Rightarrow> Indices []))"

subsection \<open>The component\<close>

text \<open>
  The state initialiser
  \<open>this.props.defaultChecked || findDefaultChecked(this.props) || -1\<close>.
\<close>

definition initialState :: "'w Props \<Rightarrow> State" where
  "initialState p =
     \<lparr>state_checked =
        js_or (Some (js_or (defaultChecked p) (findDefaultChecked p))) (Index (-1))\<rparr>"

definition mount :: "'w Props \<Rightarrow> 'w Instance" where
  "mount p = \<lparr>props = p, state = initialState p\<rparr>"

text \<open>
  A render with new props. The class declares no lifecycle method that looks at
  incoming props, so React keeps the state of the instance as it is.
\<close>

definition rerender :: "'w Props \<Rightarrow> 'w Instance \<Rightarrow> 'w Instance" where
  "rerender p' inst = inst\<lparr>props := p'\<rparr>"

text \<open>\<open>isControlled('checked')\<close>: \<open>this.props.hasOwnProperty('checked')\<close>.\<close>

definition isControlled :: "'w Props \<Rightarrow> bool" where
  "isControlled p = (checked p \<noteq> None)"

text \<open>\<open>getControllableValue('checked')\<close>.\<close>

definition getControllableValue :: "'w Props \<Rightarrow> State \<Rightarrow> Checked option" where
  "getControllableValue p st =
     (if isControlled p then (case checked p of None \<Rightarrow> None | Some v \<Rightarrow> v)
      else Some (state_checked st))"

text \<open>\<open>h && h(event)\<close>, called while the component's state is \<open>st\<close>.\<close>

definition invoke :: "'w handler option \<Rightarrow> Event \<Rightarrow> State \<Rightarrow> 'w \<Rightarrow> 'w" where
  "invoke h event st w = (case h of None \<Rightarrow> w | Some f \<Rightarrow> f event st w)"

definition clickActions :: "'w Props \<Rightarrow> State \<Rightarrow> Event \<Rightarrow> bool \<Rightarrow> 'w \<Rightarrow> 'w" where
  "clickActions p st event changed w =
     (let w1 = invoke (onClick p) event st w
      in if changed then invoke (onChange p) event st w1 else w1)"

text \<open>
  The updater passed to \<open>setState\<close>. It also assigns the variable \<open>changed\<close> of the
  enclosing \<open>handleClick\<close>, so it takes the variable's value and returns the new one
  beside the new state.
\<close>

definition updater :: "Mode \<Rightarrow> Event \<Rightarrow> bool \<Rightarrow> State \<Rightarrow> State \<times> bool" where
  "updater m event changed prevState =
     (if m = Checkbox then
        (let checked0 = toArray (state_checked prevState);
             i = indexOf checked0 (target_data_index event);
             hasValue = (i \<noteq> -1);
             checked1 = (if \<not> hasValue then push checked0 (target_data_index event)
                         else if hasValue then splice1 checked0 i
                         else checked0)
         in (\<lparr>state_checked = Indices checked1\<rparr>, changed))
      else
        (let checked1 = target_data_index event
         in (\<lparr>state_checked = Index checked1\<rparr>,
             first (toArray (state_checked prevState)) \<noteq> Some checked1)))"

text \<open>
  \<open>this.setState(updater, callback)\<close>: React applies the updater to the previous
  state, commits the result, and then runs the callback.
\<close>

definition setState ::
  "(State \<Rightarrow> State \<times> bool) \<Rightarrow> (State \<Rightarrow> bool \<Rightarrow> 'w \<Rightarrow> 'w) \<Rightarrow> State \<Rightarrow> 'w \<Rightarrow> State \<times> 'w" where
  "setState upd callback st w =
     (let (st', changed) = upd st in (st', callback st' changed w))"

text \<open>
  \<open>handleClick(index, event)\<close>: the state and the caller's world before the click
  give the state and the world after it.
\<close>

definition handleClick ::
  "'w Props \<Rightarrow> int \<Rightarrow> Event \<Rightarrow> State \<Rightarrow> 'w \<Rightarrow> State \<times> 'w" where
  "handleClick p index event st w =
     (case mode p of
        None \<Rightarrow> (st, clickActions p st event False w)
      | Some m \<Rightarrow>
          if isControlled p then (st, clickActions p st event True w)
          else setState (updater m event True)
                 (\<lambda>st' changed. clickActions p st' event changed) st w)"

subsection \<open>Rendering the children\<close>

text \<open>
  The second argument of \<open>cloneElement\<close> in \<open>render\<close>. An entry that the object
  literal spreads in conditionally is \<open>None\<close> when it is left out; \<open>cfg_size\<close> is always
  an entry, its value may be \<open>undefined\<close> (\<open>None\<close>). The entry \<open>onClick\<close>, which
  composes the child's own handler with \<open>handleClick\<close>, is how a click on the child
  of index \<open>i\<close> reaches \<open>handleClick\<close> with an event whose target carries
  \<open>data-index = i\<close>; it is not a field here.
\<close>

record Config =
  cfg_aria_checked :: "bool option"
  cfg_data_index :: int
  cfg_disabled :: bool
  cfg_key :: int
  cfg_primary :: "bool option"
  cfg_role :: "Mode option"
  cfg_size :: "Size option"
  cfg_variant :: "Variant option"

text \<open>
  React's \<open>cloneElement(child, config)\<close>: every entry of \<open>config\<close> replaces the child's
  prop of that name, an entry whose value is \<open>undefined\<close> resolves to the element
  type's default, and the child's other props stay.
\<close>

definition cloneElement :: "Button \<Rightarrow> Config \<Rightarrow> Button" where
  "cloneElement child cfg =
     child\<lparr>btn_aria_checked :=
             (case cfg_aria_checked cfg of None \<Rightarrow> btn_aria_checked child | Some c \<Rightarrow> Some c),
           btn_data_index := Some (cfg_data_index cfg),
           btn_disabled := cfg_disabled cfg,
           btn_key := Some (cfg_key cfg),
           btn_primary :=
             (case cfg_primary cfg of None \<Rightarrow> btn_primary child | Some b \<Rightarrow> b),
           btn_role := (case cfg_role cfg of None \<Rightarrow> btn_role child | Some r \<Rightarrow> Some r),
           btn_size :=
             (case cfg_size cfg of None \<Rightarrow> btn_defaultProps_size child | Some s \<Rightarrow> Some s),
           btn_variant :=
             (case cfg_variant cfg of None \<Rightarrow> btn_variant child | Some v \<Rightarrow> Some v)\<rparr>"

text \<open>The children as a list, in the order \<open>Children.map\<close> visits them.\<close>

fun childList :: "Node \<Rightarrow> Button list" where
  "childList NoChildren = []"
| "childList (OneChild b) = [b]"
| "childList (ChildArray bs) = bs"

fun mapIndexed :: "('a \<Rightarrow> int \<Rightarrow> 'b) \<Rightarrow> 'a list \<Rightarrow> int \<Rightarrow> 'b list" where
  "mapIndexed f [] index = []"
| "mapIndexed f (x # xs) index = f x index # mapIndexed f xs (index + 1)"

definition Children_map :: "Node \<Rightarrow> (Button \<Rightarrow> int \<Rightarrow> 'b) \<Rightarrow> 'b list" where
  "Children_map node f = mapIndexed f (childList node) 0"

text \<open>The callback of \<open>Children.map\<close> in \<open>render\<close>, and the buttons \<open>render\<close> makes.\<close>

definition decorate :: "'w Props \<Rightarrow> Checked option \<Rightarrow> Button \<Rightarrow> int \<Rightarrow> Button" where
  "decorate p checked0 child index =
     (let isChildToggleable = (mode p = Some Radio \<or> mode p = Some Checkbox);
          isChildChecked = isChecked checked0 index
      in cloneElement child
           \<lparr>cfg_aria_checked = (if isChildToggleable then Some isChildChecked else None),
            cfg_data_index = index,
            cfg_disabled = (disabled p \<or> btn_disabled child),
            cfg_key = index,
            cfg_primary = (if isChildToggleable \<and> isChildChecked then Some True else None),
            cfg_role = (if isChildToggleable then mode p else None),
            cfg_size = size_prop p,
            cfg_variant = (case variant p of None \<Rightarrow> None | Some v \<Rightarrow> Some v)\<rparr>)"

definition render :: "'w Props \<Rightarrow> State \<Rightarrow> Button list" where
  "render p st = Children_map (children p) (decorate p (getControllableValue p st))"

subsection \<open>The groups of the demos, with callbacks that keep a log\<close>

text \<open>
  A callback of the examples appends its name and the selection that the component
  holds while the callback runs.
\<close>

type_synonym log = "(string \<times> Checked) list"

definition logClick :: "log handler" where
  "logClick event st w = w @ [(''onClick'', state_checked st)]"

definition logChange :: "log handler" where
  "logChange event st w = w @ [(''onChange'', state_checked st)]"

text \<open>\<open><Button>...</Button>\<close>; the Button type's default size is \<open>large\<close>.\<close>

definition plainButton :: Button where
  "plainButton =
     \<lparr>btn_aria_checked = None, btn_data_index = None, btn_defaultChecked = False,
      btn_disabled = False, btn_key = None, btn_primary = False, btn_role = None,
      btn_size = None, btn_variant = None, btn_defaultProps_size = Some Large\<rparr>"

text \<open>A group of the given children and mode, uncontrolled, both callbacks logging.\<close>

definition groupOf :: "Button list \<Rightarrow> Mode option \<Rightarrow> log Props" where
  "groupOf bs m =
     \<lparr>checked = None, children = ChildArray bs, defaultChecked = None, disabled = False,
      mode = m, onChange = Some logChange, onClick = Some logClick, size_prop = None,
      variant = None\<rparr>"

text \<open>
  The "Align text" group of the icons demo (radio, the first Button default-checked),
  the "Format text" group of the same demo (checkbox, nothing default-checked), the
  "Align text" group of the disabled demo (radio, \<open>defaultChecked={0}\<close>), and a plain
  group without a mode.
\<close>

definition alignText :: "log Props" where
  "alignText =
     groupOf [plainButton\<lparr>btn_defaultChecked := True\<rparr>, plainButton, plainButton] (Some Radio)"

definition formatText :: "log Props" where
  "formatText = groupOf [plainButton, plainButton, plainButton] (Some Checkbox)"

definition alignTextDefault0 :: "log Props" where
  "alignTextDefault0 =
     (groupOf [plainButton, plainButton, plainButton] (Some Radio))
       \<lparr>defaultChecked := Some (Index 0)\<rparr>"

definition editText :: "log Props" where
  "editText = groupOf [plainButton, plainButton, plainButton] None"

text \<open>
  Variations of the "Align text" group: its last two Buttons default-checked, the
  prop \<open>defaultChecked={[0, 1]}\<close> on the group, and the group after its third
  Button has been taken away.
\<close>

definition alignTextTwoDefaults :: "log Props" where
  "alignTextTwoDefaults =
     groupOf [plainButton, plainButton\<lparr>btn_defaultChecked := True\<rparr>,
              plainButton\<lparr>btn_defaultChecked := True\<rparr>] (Some Radio)"

definition alignTextDefault01 :: "log Props" where
  "alignTextDefault01 =
     (groupOf [plainButton, plainButton, plainButton] (Some Radio))
       \<lparr>defaultChecked := Some (Indices [0, 1])\<rparr>"

definition alignTextShrunk :: "log Props" where
  "alignTextShrunk =
     groupOf [plainButton\<lparr>btn_defaultChecked := True\<rparr>, plainButton] (Some Radio)"

text \<open>
  The "Sentiments" group of the icons demo (radio, each Button with a variant of its
  own, size \<open>small\<close> on the first), and the same group with \<open>variant="danger"\<close> and
  \<open>size="jumbo"\<close> on the group.
\<close>

definition sentiments :: "log Props" where
  "sentiments =
     groupOf [plainButton\<lparr>btn_variant := Some Success, btn_size := Some Small\<rparr>,
              plainButton\<lparr>btn_variant := Some Warning\<rparr>,
              plainButton\<lparr>btn_variant := Some Danger\<rparr>] (Some Radio)"

definition sentimentsDanger :: "log Props" where
  "sentimentsDanger = sentiments\<lparr>size_prop := Some Jumbo, variant := Some Danger\<rparr>"

subsection \<open>Notions the properties speak of\<close>

text \<open>The Selection as a set of indices.\<close>

definition selection :: "Checked \<Rightarrow> int set" where
  "selection c = set (toArray c)"

text \<open>Every index of the selection addresses one of \<open>n\<close> children.\<close>

definition validIndices :: "nat \<Rightarrow> Checked \<Rightarrow> bool" where
  "validIndices n c = list_all (\<lambda>i. 0 \<le> i \<and> i < int n) (toArray c)"

section \<open>Properties\<close>

subsection \<open>Facts about the array helpers\<close>

lemma indexOf_ge: "- 1 \<le> indexOf xs v"
  by (induction xs) (auto simp: Let_def)

lemma indexOf_absent: "indexOf xs v = - 1 \<longleftrightarrow> v \<notin> set xs"
proof (induction xs)
  case Nil
  show ?case by simp
next
  case (Cons x xs)
  have "- 1 \<le> indexOf xs v" by (rule indexOf_ge)
  with Cons show ?case by (auto simp: Let_def)
qed

lemma indexOf_present:
  "v \<in> set xs \<Longrightarrow> 0 \<le> indexOf xs v \<and> nat (indexOf xs v) < length xs \<and> xs ! nat (indexOf xs v) = v"
proof (induction xs)
  case Nil
  then show ?case by simp
next
  case (Cons x xs)
  show ?case
  proof (cases "x = v")
    case True
    then show ?thesis by simp
  next
    case False
    with Cons.prems have mem: "v \<in> set xs" by simp
    from Cons.IH [OF mem] have ih: "0 \<le> indexOf xs v" "nat (indexOf xs v) < length xs"
      "xs ! nat (indexOf xs v) = v" by auto
    have "nat (indexOf xs v + 1) = Suc (nat (indexOf xs v))" using ih(1) by simp
    with False ih show ?thesis by (simp add: Let_def)
  qed
qed

lemma splice1_indexOf_set:
  assumes "distinct xs" and "v \<in> set xs"
  shows "set (splice1 xs (indexOf xs v)) = set xs - {v}"
  using assms
proof (induction xs)
  case Nil
  then show ?case by simp
next
  case (Cons x xs)
  show ?case
  proof (cases "x = v")
    case True
    with Cons.prems show ?thesis by (simp add: splice1_def)
  next
    case False
    with Cons.prems have mem: "v \<in> set xs" and d: "distinct xs" and nx: "x \<notin> set xs" by auto
    from indexOf_present [OF mem] have ge: "0 \<le> indexOf xs v" by simp
    have n: "nat (indexOf xs v + 1) = Suc (nat (indexOf xs v))" using ge by simp
    have ne: "indexOf xs v \<noteq> - 1" using ge by simp
    have "splice1 (x # xs) (indexOf (x # xs) v) = x # splice1 xs (indexOf xs v)"
      using False ne n by (simp add: splice1_def Let_def)
    with Cons.IH [OF d mem] False nx show ?thesis by auto
  qed
qed

lemma splice1_distinct: "distinct xs \<Longrightarrow> distinct (splice1 xs i)"
proof -
  assume d: "distinct xs"
  have "distinct (take (nat i) xs @ drop (nat i) xs)" using d by simp
  then have c: "set (take (nat i) xs) \<inter> set (drop (nat i) xs) = {}"
    by (simp only: distinct_append)
  have sub: "set (drop (Suc (nat i)) xs) \<subseteq> set (drop (nat i) xs)"
    by (rule set_drop_subset_set_drop) simp
  have a: "distinct (take (nat i) xs)" and b: "distinct (drop (Suc (nat i)) xs)"
    using d by simp_all
  from a b c sub show ?thesis unfolding splice1_def by auto
qed

lemma splice1_subset: "set (splice1 xs i) \<subseteq> set xs"
proof -
  have "set (take (nat i) xs) \<subseteq> set xs" by (rule set_take_subset)
  moreover have "set (drop (Suc (nat i)) xs) \<subseteq> set xs" by (rule set_drop_subset)
  ultimately show ?thesis by (simp add: splice1_def)
qed

lemma splice1_indexOf_remove1:
  "v \<in> set xs \<Longrightarrow> splice1 xs (indexOf xs v) = remove1 v xs"
proof (induction xs)
  case Nil
  then show ?case by simp
next
  case (Cons x xs)
  show ?case
  proof (cases "x = v")
    case True
    then show ?thesis by (simp add: splice1_def)
  next
    case False
    with Cons.prems have mem: "v \<in> set xs" by simp
    from indexOf_present [OF mem] have ge: "0 \<le> indexOf xs v" by simp
    have n: "nat (indexOf xs v + 1) = Suc (nat (indexOf xs v))" using ge by simp
    have ne: "indexOf xs v \<noteq> - 1" using ge by simp
    have "splice1 (x # xs) (indexOf (x # xs) v) = x # splice1 xs (indexOf xs v)"
      using False ne n by (simp add: splice1_def Let_def)
    with Cons.IH [OF mem] False show ?thesis by simp
  qed
qed

lemma card_le_1_first:
  assumes "card (set xs) \<le> 1"
  shows "(first xs \<noteq> Some i) = (set xs \<noteq> {i})"
proof (cases xs)
  case Nil
  then show ?thesis by (simp add: first_def)
next
  case (Cons x rest)
  have "\<forall>a \<in> set xs. \<forall>b \<in> set xs. a = b"
    using assms by (simp add: card_le_Suc0_iff_eq)
  then have "set xs = {x}" using Cons by auto
  then show ?thesis using Cons by (auto simp: first_def)
qed

lemma isChecked_member: "isChecked (Some c) i \<longleftrightarrow> i \<in> selection c"
  by (cases c) (auto simp: selection_def indexOf_absent)

lemma card_selection_le: "length (toArray c) \<le> 1 \<Longrightarrow> card (selection c) \<le> 1"
  unfolding selection_def using card_length [of "toArray c"] by linarith

subsection \<open>Facts about the updater and the click handler\<close>

lemma updater_radio:
  "updater Radio ev changed st =
     (\<lparr>state_checked = Index (target_data_index ev)\<rparr>,
      first (toArray (state_checked st)) \<noteq> Some (target_data_index ev))"
  by (simp add: updater_def Let_def)

lemma updater_checkbox:
  "updater Checkbox \<lparr>target_data_index = i\<rparr> changed st =
     (\<lparr>state_checked = Indices
         (if i \<in> set (toArray (state_checked st))
          then splice1 (toArray (state_checked st)) (indexOf (toArray (state_checked st)) i)
          else push (toArray (state_checked st)) i)\<rparr>, changed)"
  by (simp add: updater_def Let_def indexOf_absent)

lemma handleClick_uncontrolled:
  assumes "mode p = Some m" and "\<not> isControlled p"
  shows "handleClick p i ev st w =
     (fst (updater m ev True st),
      clickActions p (fst (updater m ev True st)) ev (snd (updater m ev True st)) w)"
  using assms by (simp add: handleClick_def setState_def split_beta)

subsection \<open>Facts about the initial state\<close>

lemma findDefaultChecked_array: "\<exists>xs. findDefaultChecked p = Indices xs"
  by (simp add: findDefaultChecked_def Let_def split: Node.splits)

lemma state_checked_initialState:
  "state_checked (initialState p) = js_or (defaultChecked p) (findDefaultChecked p)"
proof -
  obtain xs where f: "findDefaultChecked p = Indices xs"
    using findDefaultChecked_array by blast
  show ?thesis
    by (cases "defaultChecked p"; cases "the (defaultChecked p)")
       (simp_all add: initialState_def js_or_def f)
qed

lemma addDefaultIndices_distinct:
  "distinct acc \<Longrightarrow> (\<forall>x \<in> set acc. x < k) \<Longrightarrow> distinct (addDefaultIndices bs k acc)"
proof (induction bs arbitrary: k acc)
  case Nil
  then show ?case by simp
next
  case (Cons b bs)
  let ?acc = "if btn_defaultChecked b then push acc k else acc"
  have d: "distinct ?acc" using Cons.prems by (auto simp: push_def)
  have l: "\<forall>x \<in> set ?acc. x < k + 1" using Cons.prems(2) by (auto simp: push_def)
  from Cons.IH [OF d l] show ?case by simp
qed

lemma findDefaultChecked_distinct: "distinct (toArray (findDefaultChecked p))"
  by (simp add: findDefaultChecked_def Let_def addDefaultIndices_distinct split: Node.splits)

lemma initialState_distinct:
  assumes "case defaultChecked p of Some (Indices xs) \<Rightarrow> distinct xs | _ \<Rightarrow> True"
  shows "distinct (toArray (state_checked (initialState p)))"
proof (cases "defaultChecked p")
  case None
  then show ?thesis
    by (simp add: state_checked_initialState js_or_def findDefaultChecked_distinct)
next
  case (Some c)
  show ?thesis
  proof (cases c)
    case (Index n)
    with Some show ?thesis
      by (simp add: state_checked_initialState js_or_def findDefaultChecked_distinct)
  next
    case (Indices xs)
    with Some assms show ?thesis by (simp add: state_checked_initialState js_or_def)
  qed
qed

subsection \<open>Facts about the demo groups\<close>

lemma alignText_simps:
  "mode alignText = Some Radio" "\<not> isControlled alignText"
  "onClick alignText = Some logClick" "onChange alignText = Some logChange"
  by (simp_all add: alignText_def groupOf_def isControlled_def)

lemma initialState_alignText: "initialState alignText = \<lparr>state_checked = Indices [0]\<rparr>"
  by (simp add: initialState_def findDefaultChecked_def js_or_def alignText_def groupOf_def
      plainButton_def)

subsection \<open>Single-select clicks\<close>

text \<open>
  C1. In an uncontrolled radio group whose selection is empty or has one member, a
  click on the child of index \<open>i\<close> makes the selection the singleton \<open>{i}\<close>. The
  flag \<open>changed\<close> is true exactly when the selection was not already \<open>{i}\<close> (it was
  empty, or its member was another index). A click on the selected index leaves the
  selection as it is, and then only \<open>onClick\<close> runs: \<open>onChange\<close> has no part in the
  result. Otherwise \<open>onClick\<close> runs and then \<open>onChange\<close>.
\<close>

theorem radio_click:
  assumes "mode p = Some Radio" and "\<not> isControlled p"
    and "card (selection (state_checked st)) \<le> 1"
  shows "selection (state_checked (fst (handleClick p i \<lparr>target_data_index = i\<rparr> st w))) = {i}
     \<and> (snd (updater Radio \<lparr>target_data_index = i\<rparr> True st)
          \<longleftrightarrow> selection (state_checked st) \<noteq> {i})
     \<and> (selection (state_checked st) = {i} \<longrightarrow>
          selection (state_checked (fst (handleClick p i \<lparr>target_data_index = i\<rparr> st w)))
            = selection (state_checked st))
     \<and> snd (handleClick p i \<lparr>target_data_index = i\<rparr> st w) =
         (if selection (state_checked st) = {i}
          then invoke (onClick p) \<lparr>target_data_index = i\<rparr> \<lparr>state_checked = Index i\<rparr> w
          else invoke (onChange p) \<lparr>target_data_index = i\<rparr> \<lparr>state_checked = Index i\<rparr>
                 (invoke (onClick p) \<lparr>target_data_index = i\<rparr> \<lparr>state_checked = Index i\<rparr> w))"
proof -
  have ch: "(first (toArray (state_checked st)) \<noteq> Some i) = (selection (state_checked st) \<noteq> {i})"
    using assms(3) unfolding selection_def by (rule card_le_1_first)
  have up: "updater Radio \<lparr>target_data_index = i\<rparr> True st
      = (\<lparr>state_checked = Index i\<rparr>, selection (state_checked st) \<noteq> {i})"
    by (simp add: updater_radio ch)
  show ?thesis
    using assms(1,2)
    by (simp add: handleClick_def setState_def clickActions_def up selection_def)
qed

text \<open>
  The "Align text" group starts with the selection \<open>[0]\<close>. A click on index 0 keeps
  the selection \<open>{0}\<close> and logs \<open>onClick\<close> only; a click on index 2 selects \<open>{2}\<close> and
  logs \<open>onClick\<close> and \<open>onChange\<close>.
\<close>

theorem radio_click_witness:
  "mode alignText = Some Radio \<and> \<not> isControlled alignText
   \<and> initialState alignText = \<lparr>state_checked = Indices [0]\<rparr>
   \<and> card (selection (Indices [0])) \<le> 1
   \<and> handleClick alignText 0 \<lparr>target_data_index = 0\<rparr> \<lparr>state_checked = Indices [0]\<rparr> []
       = (\<lparr>state_checked = Index 0\<rparr>, [(''onClick'', Index 0)])
   \<and> selection (Index 0) = selection (Indices [0])
   \<and> handleClick alignText 2 \<lparr>target_data_index = 2\<rparr> \<lparr>state_checked = Indices [0]\<rparr> []
       = (\<lparr>state_checked = Index 2\<rparr>, [(''onClick'', Index 2), (''onChange'', Index 2)])"
proof -
  have k: "card (selection (state_checked \<lparr>state_checked = Indices [0]\<rparr>)) \<le> 1"
    by (simp add: selection_def)
  note t0 = radio_click [OF alignText_simps(1,2) k, of 0 "[]"]
  note t2 = radio_click [OF alignText_simps(1,2) k, of 2 "[]"]
  have h0: "handleClick alignText 0 \<lparr>target_data_index = 0\<rparr> \<lparr>state_checked = Indices [0]\<rparr> []
       = (\<lparr>state_checked = Index 0\<rparr>, [(''onClick'', Index 0)])"
    by (simp add: handleClick_def setState_def updater_def clickActions_def invoke_def
        logClick_def logChange_def first_def alignText_simps)
  have h2: "handleClick alignText 2 \<lparr>target_data_index = 2\<rparr> \<lparr>state_checked = Indices [0]\<rparr> []
       = (\<lparr>state_checked = Index 2\<rparr>, [(''onClick'', Index 2), (''onChange'', Index 2)])"
    by (simp add: handleClick_def setState_def updater_def clickActions_def invoke_def
        logClick_def logChange_def first_def alignText_simps)
  from t0 t2 show ?thesis
    using alignText_simps(1,2) initialState_alignText h0 h2 by (simp add: selection_def)
qed

subsection \<open>Multi-select clicks\<close>

text \<open>
  C2, as the code has it. In an uncontrolled checkbox group a click on the child of
  index \<open>i\<close> appends \<open>i\<close> to the selection array when \<open>i\<close> is absent, and removes
  the first occurrence of \<open>i\<close> when it is present. So the click toggles the
  membership of \<open>i\<close> whenever the array lists every index once; that holds of the
  initial selection unless the prop \<open>defaultChecked\<close> is an array with a repeated
  index, and every click keeps it. The flag \<open>changed\<close> is true on every such click,
  and \<open>onClick\<close> and then \<open>onChange\<close> run, both seeing the new selection.
\<close>

theorem checkbox_click:
  assumes "mode p = Some Checkbox" and "\<not> isControlled p"
  shows "state_checked (fst (handleClick p i \<lparr>target_data_index = i\<rparr> st w))
           = Indices (if i \<in> selection (state_checked st)
                      then remove1 i (toArray (state_checked st))
                      else toArray (state_checked st) @ [i])
     \<and> (i \<notin> selection (state_checked st) \<longrightarrow>
            selection (state_checked (fst (handleClick p i \<lparr>target_data_index = i\<rparr> st w)))
              = insert i (selection (state_checked st)))
     \<and> (i \<in> selection (state_checked st) \<and> distinct (toArray (state_checked st)) \<longrightarrow>
            selection (state_checked (fst (handleClick p i \<lparr>target_data_index = i\<rparr> st w)))
              = selection (state_checked st) - {i})
     \<and> (distinct (toArray (state_checked st)) \<longrightarrow>
            distinct (toArray (state_checked (fst (handleClick p i \<lparr>target_data_index = i\<rparr> st w)))))
     \<and> ((case defaultChecked p of Some (Indices xs) \<Rightarrow> distinct xs | _ \<Rightarrow> True) \<longrightarrow>
            distinct (toArray (state_checked (initialState p))))
     \<and> snd (updater Checkbox \<lparr>target_data_index = i\<rparr> True st)
     \<and> snd (handleClick p i \<lparr>target_data_index = i\<rparr> st w) =
         invoke (onChange p) \<lparr>target_data_index = i\<rparr>
           (fst (handleClick p i \<lparr>target_data_index = i\<rparr> st w))
           (invoke (onClick p) \<lparr>target_data_index = i\<rparr>
              (fst (handleClick p i \<lparr>target_data_index = i\<rparr> st w)) w)"
proof -
  let ?ev = "\<lparr>target_data_index = i\<rparr>"
  let ?xs = "toArray (state_checked st)"
  have hc: "handleClick p i ?ev st w =
     (fst (updater Checkbox ?ev True st),
      clickActions p (fst (updater Checkbox ?ev True st)) ?ev (snd (updater Checkbox ?ev True st)) w)"
    using assms by (rule handleClick_uncontrolled)
  have ex: "state_checked (fst (updater Checkbox ?ev True st))
      = Indices (if i \<in> set ?xs then remove1 i ?xs else ?xs @ [i])"
    by (simp add: updater_checkbox push_def splice1_indexOf_remove1)
  have add: "i \<notin> set ?xs \<Longrightarrow>
      set (toArray (state_checked (fst (updater Checkbox ?ev True st)))) = insert i (set ?xs)"
    by (simp add: ex)
  have del: "i \<in> set ?xs \<Longrightarrow> distinct ?xs \<Longrightarrow>
      set (toArray (state_checked (fst (updater Checkbox ?ev True st)))) = set ?xs - {i}"
    by (simp add: ex)
  have dis: "distinct ?xs \<Longrightarrow>
      distinct (toArray (state_checked (fst (updater Checkbox ?ev True st))))"
    by (simp add: ex)
  have ini: "(case defaultChecked p of Some (Indices xs) \<Rightarrow> distinct xs | _ \<Rightarrow> True) \<Longrightarrow>
      distinct (toArray (state_checked (initialState p)))"
    by (rule initialState_distinct)
  have ch: "snd (updater Checkbox ?ev True st)"
    by (simp add: updater_checkbox)
  show ?thesis
    unfolding hc selection_def using ex add del dis ini ch
    by (simp add: clickActions_def)
qed

text \<open>
  The "Format text" group (three Buttons, none default-checked) starts with the empty
  selection. A click on index 1 gives \<open>{1}\<close>, a second click on index 1 gives the
  empty selection again, and both clicks log \<open>onClick\<close> and \<open>onChange\<close>.
\<close>

theorem checkbox_click_witness:
  "mode formatText = Some Checkbox \<and> \<not> isControlled formatText
   \<and> defaultChecked formatText = None
   \<and> initialState formatText = \<lparr>state_checked = Indices []\<rparr>
   \<and> distinct (toArray (Indices []))
   \<and> handleClick formatText 1 \<lparr>target_data_index = 1\<rparr> \<lparr>state_checked = Indices []\<rparr> []
       = (\<lparr>state_checked = Indices [1]\<rparr>,
          [(''onClick'', Indices [1]), (''onChange'', Indices [1])])
   \<and> distinct (toArray (Indices [1]))
   \<and> handleClick formatText 1 \<lparr>target_data_index = 1\<rparr> \<lparr>state_checked = Indices [1]\<rparr> []
       = (\<lparr>state_checked = Indices []\<rparr>,
          [(''onClick'', Indices []), (''onChange'', Indices [])])
   \<and> selection (Indices [1]) = insert 1 (selection (Indices []))
   \<and> selection (Indices []) = selection (Indices [1]) - {1}"
proof -
  have m: "mode formatText = Some Checkbox" and c: "\<not> isControlled formatText"
    and d: "defaultChecked formatText = None"
    by (simp_all add: formatText_def groupOf_def isControlled_def)
  note t1 = checkbox_click [OF m c, of 1 "\<lparr>state_checked = Indices []\<rparr>" "[]"]
  note t2 = checkbox_click [OF m c, of 1 "\<lparr>state_checked = Indices [1]\<rparr>" "[]"]
  have i: "initialState formatText = \<lparr>state_checked = Indices []\<rparr>"
    by (simp add: initialState_def findDefaultChecked_def js_or_def formatText_def groupOf_def
        plainButton_def)
  have h1: "handleClick formatText 1 \<lparr>target_data_index = 1\<rparr> \<lparr>state_checked = Indices []\<rparr> []
       = (\<lparr>state_checked = Indices [1]\<rparr>,
          [(''onClick'', Indices [1]), (''onChange'', Indices [1])])"
    by (simp add: handleClick_def setState_def updater_def clickActions_def invoke_def
        logClick_def logChange_def push_def isControlled_def formatText_def groupOf_def)
  have h2: "handleClick formatText 1 \<lparr>target_data_index = 1\<rparr> \<lparr>state_checked = Indices [1]\<rparr> []
       = (\<lparr>state_checked = Indices []\<rparr>,
          [(''onClick'', Indices []), (''onChange'', Indices [])])"
    by (simp add: handleClick_def setState_def updater_def clickActions_def invoke_def
        logClick_def logChange_def splice1_def isControlled_def formatText_def groupOf_def)
  from t1 t2 show ?thesis
    unfolding h1 h2 using m c d i h1 h2 by (simp add: selection_def)
qed

text \<open>
  C2 as stated fails: the "Format text" group with \<open>defaultChecked={[1, 0, 1]}\<close>
  starts with the selection array \<open>[1, 0, 1]\<close>; a click on index 1 leaves \<open>[0, 1]\<close>,
  and index 1 is still selected.
\<close>

theorem repeated_index_not_removed:
  "mode (formatText\<lparr>defaultChecked := Some (Indices [1, 0, 1])\<rparr>) = Some Checkbox
   \<and> \<not> isControlled (formatText\<lparr>defaultChecked := Some (Indices [1, 0, 1])\<rparr>)
   \<and> initialState (formatText\<lparr>defaultChecked := Some (Indices [1, 0, 1])\<rparr>)
       = \<lparr>state_checked = Indices [1, 0, 1]\<rparr>
   \<and> 1 \<in> selection (Indices [1, 0, 1])
   \<and> fst (handleClick (formatText\<lparr>defaultChecked := Some (Indices [1, 0, 1])\<rparr>) 1
            \<lparr>target_data_index = 1\<rparr> \<lparr>state_checked = Indices [1, 0, 1]\<rparr> [])
       = \<lparr>state_checked = Indices [0, 1]\<rparr>
   \<and> 1 \<in> selection (Indices [0, 1])"
  by (simp add: formatText_def groupOf_def isControlled_def initialState_def js_or_def
      handleClick_def setState_def updater_def splice1_def selection_def)

subsection \<open>Controlled groups and groups without a mode\<close>

text \<open>
  C5. When the prop \<open>checked\<close> is supplied, a click leaves the component's state as
  it is, whatever the mode; and when the group has a mode (radio or checkbox), the
  click runs \<open>onClick\<close> and then \<open>onChange\<close>, with no test of whether the selection
  would change.
\<close>

theorem controlled_click:
  assumes "isControlled p"
  shows "fst (handleClick p i ev st w) = st
     \<and> (mode p \<noteq> None \<longrightarrow>
          snd (handleClick p i ev st w)
            = invoke (onChange p) ev st (invoke (onClick p) ev st w))"
  using assms by (auto simp: handleClick_def clickActions_def split: option.splits)

text \<open>
  The "Align text" group with \<open>checked={0}\<close>: a click on the selected index 0 keeps
  the state and still logs \<open>onChange\<close>.
\<close>

theorem controlled_click_witness:
  "isControlled (alignText\<lparr>checked := Some (Some (Index 0))\<rparr>)
   \<and> mode (alignText\<lparr>checked := Some (Some (Index 0))\<rparr>) \<noteq> None
   \<and> handleClick (alignText\<lparr>checked := Some (Some (Index 0))\<rparr>) 0
         \<lparr>target_data_index = 0\<rparr> \<lparr>state_checked = Indices [0]\<rparr> []
       = (\<lparr>state_checked = Indices [0]\<rparr>,
          [(''onClick'', Indices [0]), (''onChange'', Indices [0])])"
proof -
  let ?p = "alignText\<lparr>checked := Some (Some (Index 0))\<rparr>"
  have c: "isControlled ?p" by (simp add: isControlled_def)
  have m: "mode ?p \<noteq> None" by (simp add: alignText_def groupOf_def)
  have h: "onClick ?p = Some logClick" "onChange ?p = Some logChange"
    by (simp_all add: alignText_def groupOf_def)
  from controlled_click [OF c, of 0 "\<lparr>target_data_index = 0\<rparr>" "\<lparr>state_checked = Indices [0]\<rparr>" "[]"] m
  have "handleClick ?p 0 \<lparr>target_data_index = 0\<rparr> \<lparr>state_checked = Indices [0]\<rparr> []
       = (\<lparr>state_checked = Indices [0]\<rparr>,
          [(''onClick'', Indices [0]), (''onChange'', Indices [0])])"
    by (simp add: prod_eq_iff h invoke_def logClick_def logChange_def)
  with c m show ?thesis by simp
qed

text \<open>
  C6. When the group has no mode, a click leaves the state as it is and calls the
  group's \<open>onClick\<close> (when one is supplied) and nothing else: whatever \<open>onChange\<close>
  is, it has no part in the result.
\<close>

theorem no_mode_click:
  assumes "mode p = None"
  shows "handleClick p i ev st w = (st, invoke (onClick p) ev st w)"
  using assms by (simp add: handleClick_def clickActions_def)

theorem no_mode_click_witness:
  "mode editText = None
   \<and> handleClick editText 1 \<lparr>target_data_index = 1\<rparr> (initialState editText) []
       = (\<lparr>state_checked = Indices []\<rparr>, [(''onClick'', Indices [])])"
  using no_mode_click [of editText 1 "\<lparr>target_data_index = 1\<rparr>" "initialState editText" "[]"]
  by (simp add: editText_def groupOf_def invoke_def logClick_def initialState_def
      findDefaultChecked_def js_or_def plainButton_def)

subsection \<open>Order of the state commit and the callbacks\<close>

text \<open>
  C7. On a click in an uncontrolled group with a mode, the new state is the
  updater's result, \<open>onClick\<close> runs, and \<open>onChange\<close> runs after it when \<open>changed\<close>
  is set; both callbacks run while the component already holds the new state, which
  is also the selection that the next rendering of the children reads.
\<close>

theorem uncontrolled_click_order:
  assumes "\<not> isControlled p" and "mode p = Some m"
  shows "handleClick p i ev st w =
     (let st' = fst (updater m ev True st);
          changed = snd (updater m ev True st);
          w1 = invoke (onClick p) ev st' w
      in (st', if changed then invoke (onChange p) ev st' w1 else w1))
     \<and> getControllableValue p (fst (handleClick p i ev st w))
         = Some (state_checked (fst (updater m ev True st)))"
  using assms
  by (simp add: handleClick_def setState_def clickActions_def Let_def split_beta
      getControllableValue_def)

text \<open>
  In the "Align text" group with the selection \<open>[0]\<close>, a click on index 1 logs both
  callbacks with the selection 1, not with \<open>[0]\<close>.
\<close>

theorem uncontrolled_click_order_witness:
  "\<not> isControlled alignText \<and> mode alignText = Some Radio
   \<and> handleClick alignText 1 \<lparr>target_data_index = 1\<rparr> \<lparr>state_checked = Indices [0]\<rparr> []
       = (\<lparr>state_checked = Index 1\<rparr>, [(''onClick'', Index 1), (''onChange'', Index 1)])
   \<and> getControllableValue alignText \<lparr>state_checked = Index 1\<rparr> = Some (Index 1)"
proof -
  note t = uncontrolled_click_order [OF alignText_simps(2,1), of 1 "\<lparr>target_data_index = 1\<rparr>"
      "\<lparr>state_checked = Indices [0]\<rparr>" "[]"]
  have u: "updater Radio \<lparr>target_data_index = 1\<rparr> True \<lparr>state_checked = Indices [0]\<rparr>
      = (\<lparr>state_checked = Index 1\<rparr>, True)"
    by (simp add: updater_def first_def)
  from t show ?thesis
    using alignText_simps
    by (simp add: u invoke_def logClick_def logChange_def getControllableValue_def)
qed

subsection \<open>The initial selection\<close>

text \<open>
  An explicit default that is truthy (a number other than 0, or any array) becomes
  the initial selection.
\<close>

lemma initialState_truthy:
  "truthy (defaultChecked p) \<Longrightarrow> defaultChecked p = Some (state_checked (initialState p))"
  by (cases "defaultChecked p") (simp_all add: state_checked_initialState js_or_def)

text \<open>
  C3. The explicit default \<open>defaultChecked={0}\<close> does not become the initial
  selection: the number 0 is falsy, so the initialiser goes on to the scan of the
  children. In the "Align text" group of the disabled demo the initial selection is
  empty and no Button is rendered as checked; with default-checked children, the
  scan's result stands in place of the explicit 0.
\<close>

theorem defaultChecked_zero_ignored:
  "defaultChecked alignTextDefault0 = Some (Index 0)
   \<and> state_checked (initialState alignTextDefault0) = Indices []
   \<and> map btn_aria_checked (render alignTextDefault0 (initialState alignTextDefault0))
       = [Some False, Some False, Some False]
   \<and> state_checked (initialState (alignTextTwoDefaults\<lparr>defaultChecked := Some (Index 0)\<rparr>))
       = Indices [1]"
  by (simp add: alignTextDefault0_def alignTextTwoDefaults_def groupOf_def plainButton_def
      initialState_def js_or_def findDefaultChecked_def render_def Children_map_def
      getControllableValue_def isControlled_def decorate_def cloneElement_def)

lemma findDefaultChecked_single:
  "mode p \<noteq> Some Checkbox \<Longrightarrow> length (toArray (findDefaultChecked p)) \<le> 1"
  by (simp add: findDefaultChecked_def Let_def split: Node.splits)

text \<open>
  C8, as the code has it. In a radio group the selection has at most one member
  after initialisation, unless the prop \<open>defaultChecked\<close> is an array of several
  indices: the scan of the children selects one index at most, also when several
  children are default-checked. Every click in an uncontrolled radio group sets the
  selection to the clicked index alone, so the selection then has exactly one member.
\<close>

theorem single_select_cardinality:
  assumes "mode p = Some Radio"
  shows "((case defaultChecked p of Some (Indices xs) \<Rightarrow> card (set xs) \<le> 1 | _ \<Rightarrow> True) \<longrightarrow>
           card (selection (state_checked (initialState p))) \<le> 1)
     \<and> (\<not> isControlled p \<longrightarrow>
           state_checked (fst (handleClick p i ev st w)) = Index (target_data_index ev)
           \<and> card (selection (state_checked (fst (handleClick p i ev st w)))) = 1)"
proof -
  have f: "card (selection (findDefaultChecked p)) \<le> 1"
    using assms by (intro card_selection_le findDefaultChecked_single) simp
  have init: "card (selection (state_checked (initialState p))) \<le> 1"
    if "case defaultChecked p of Some (Indices xs) \<Rightarrow> card (set xs) \<le> 1 | _ \<Rightarrow> True"
  proof (cases "defaultChecked p")
    case None
    then show ?thesis using f by (simp add: state_checked_initialState js_or_def)
  next
    case (Some c)
    show ?thesis
    proof (cases c)
      case (Index n)
      with Some f show ?thesis by (simp add: state_checked_initialState js_or_def selection_def)
    next
      case (Indices xs)
      with Some that show ?thesis by (simp add: state_checked_initialState js_or_def selection_def)
    qed
  qed
  have click: "state_checked (fst (handleClick p i ev st w)) = Index (target_data_index ev)"
    if "\<not> isControlled p"
    by (simp add: handleClick_uncontrolled [OF assms that] updater_radio)
  show ?thesis using init click by (simp add: selection_def)
qed

text \<open>
  A radio group whose second and third Buttons are both default-checked starts with
  the selection \<open>[1]\<close>, and a click on index 2 leaves one selected index.
\<close>

theorem single_select_cardinality_witness:
  "mode alignTextTwoDefaults = Some Radio
   \<and> defaultChecked alignTextTwoDefaults = None
   \<and> state_checked (initialState alignTextTwoDefaults) = Indices [1]
   \<and> card (selection (state_checked (initialState alignTextTwoDefaults))) \<le> 1
   \<and> \<not> isControlled alignTextTwoDefaults
   \<and> card (selection (state_checked (fst (handleClick alignTextTwoDefaults 2
         \<lparr>target_data_index = 2\<rparr> (initialState alignTextTwoDefaults) [])))) = 1"
proof -
  have m: "mode alignTextTwoDefaults = Some Radio"
    and d: "defaultChecked alignTextTwoDefaults = None"
    and c: "\<not> isControlled alignTextTwoDefaults"
    by (simp_all add: alignTextTwoDefaults_def groupOf_def isControlled_def)
  have i: "state_checked (initialState alignTextTwoDefaults) = Indices [1]"
    by (simp add: alignTextTwoDefaults_def groupOf_def plainButton_def initialState_def
        js_or_def findDefaultChecked_def)
  from single_select_cardinality [OF m, of 2 "\<lparr>target_data_index = 2\<rparr>"
      "initialState alignTextTwoDefaults" "[]"]
  show ?thesis using m d c i by (simp add: selection_def)
qed

text \<open>
  C8 as stated fails: a radio group with \<open>defaultChecked={[0, 1]}\<close> starts with a
  selection of two indices, and its first two Buttons are both rendered as checked.
\<close>

theorem explicit_default_array_kept:
  "mode alignTextDefault01 = Some Radio
   \<and> state_checked (initialState alignTextDefault01) = Indices [0, 1]
   \<and> card (selection (state_checked (initialState alignTextDefault01))) = 2
   \<and> map btn_aria_checked (render alignTextDefault01 (initialState alignTextDefault01))
       = [Some True, Some True, Some False]"
  by (simp add: alignTextDefault01_def groupOf_def plainButton_def
      initialState_def js_or_def selection_def render_def Children_map_def
      getControllableValue_def isControlled_def decorate_def cloneElement_def)

subsection \<open>Selection indices and the child sequence\<close>

lemma addDefaultIndices_bounds:
  "x \<in> set (addDefaultIndices bs k acc) \<Longrightarrow>
     x \<in> set acc \<or> (k \<le> x \<and> x < k + int (length bs))"
proof (induction bs arbitrary: k acc)
  case Nil
  then show ?case by simp
next
  case (Cons b bs)
  from Cons.prems
  have "x \<in> set (if btn_defaultChecked b then push acc k else acc)
      \<or> (k + 1 \<le> x \<and> x < k + 1 + int (length bs))"
    by (auto dest: Cons.IH)
  then show ?case by (auto simp: push_def split: if_splits)
qed

lemma findDefaultChecked_valid:
  "validIndices (length (childList (children p))) (findDefaultChecked p)"
proof (cases "children p")
  case NoChildren
  then show ?thesis by (simp add: findDefaultChecked_def validIndices_def)
next
  case (OneChild b)
  then show ?thesis by (simp add: findDefaultChecked_def validIndices_def)
next
  case (ChildArray bs)
  show ?thesis
  proof (cases "mode p = Some Checkbox")
    case True
    have "0 \<le> x \<and> x < int (length bs)" if "x \<in> set (addDefaultIndices bs 0 [])" for x
      using addDefaultIndices_bounds [OF that] by simp
    with True ChildArray show ?thesis
      by (simp add: findDefaultChecked_def validIndices_def list_all_iff)
  next
    case False
    show ?thesis
    proof (cases "find btn_defaultChecked bs")
      case None
      with False ChildArray show ?thesis by (simp add: findDefaultChecked_def validIndices_def)
    next
      case (Some b)
      then have "b \<in> set bs" by (auto simp: find_Some_iff)
      from indexOf_present [OF this]
      have "0 \<le> indexOf bs b" and "indexOf bs b < int (length bs)" by auto
      with False ChildArray Some show ?thesis
        by (simp add: findDefaultChecked_def validIndices_def)
    qed
  qed
qed

lemma handleClick_valid:
  assumes "0 \<le> i" and "i < int n" and "validIndices n (state_checked st)"
  shows "validIndices n (state_checked (fst (handleClick p i \<lparr>target_data_index = i\<rparr> st w)))"
proof (cases "mode p")
  case None
  with assms(3) show ?thesis by (simp add: handleClick_def)
next
  case (Some m)
  show ?thesis
  proof (cases "isControlled p")
    case True
    with Some assms(3) show ?thesis by (simp add: handleClick_def)
  next
    case False
    note hc = handleClick_uncontrolled [OF Some False]
    show ?thesis
    proof (cases m)
      case Radio
      with assms(1,2) show ?thesis by (simp add: hc updater_radio validIndices_def)
    next
      case Checkbox
      have "set (splice1 (toArray (state_checked st)) j) \<subseteq> set (toArray (state_checked st))" for j
        by (rule splice1_subset)
      with assms Checkbox show ?thesis
        by (auto simp: hc updater_def validIndices_def list_all_iff Let_def push_def)
    qed
  qed
qed

text \<open>
  C9, as the code has it. A rendering with new props (a shorter child list, say)
  leaves the state, and so the selection, exactly as it was: no index is dropped. The
  indices that the component produces itself address children of the moment: those
  of the scan of the children at initialisation, and those after a click on the
  child of a valid index \<open>i\<close> when the indices before the click were valid.
\<close>

theorem selection_kept_when_children_change:
  "state (rerender p' inst) = state inst
   \<and> validIndices (length (childList (children p))) (findDefaultChecked p)
   \<and> (0 \<le> i \<and> i < int n \<and> validIndices n (state_checked st) \<longrightarrow>
        validIndices n (state_checked (fst (handleClick p i \<lparr>target_data_index = i\<rparr> st w))))"
  using findDefaultChecked_valid [of p] handleClick_valid [of i n st p w]
  by (simp add: rerender_def)

theorem selection_kept_when_children_change_witness:
  "state (rerender alignTextShrunk (mount alignText)) = state (mount alignText)
   \<and> validIndices 3 (findDefaultChecked alignText)
   \<and> validIndices 3 (state_checked (fst (handleClick alignText 2 \<lparr>target_data_index = 2\<rparr>
        (initialState alignText) [])))"
proof -
  have v: "validIndices 3 (state_checked (initialState alignText))"
    by (simp add: initialState_alignText validIndices_def)
  have l: "length (childList (children alignText)) = 3"
    by (simp add: alignText_def groupOf_def)
  from selection_kept_when_children_change [of alignTextShrunk "mount alignText" alignText 2 3
      "initialState alignText" "[]"] v l
  show ?thesis by simp
qed

text \<open>
  C9 as stated fails: in the "Align text" group a click on index 2 selects 2; when
  the group is then rendered with two Buttons only, the selection is still 2, which
  addresses no child.
\<close>

theorem stale_index_survives:
  "state_checked (state (mount alignText)) = Indices [0]
   \<and> fst (handleClick alignText 2 \<lparr>target_data_index = 2\<rparr> (state (mount alignText)) [])
       = \<lparr>state_checked = Index 2\<rparr>
   \<and> length (childList (children alignTextShrunk)) = 2
   \<and> state_checked (state (rerender alignTextShrunk
         \<lparr>props = alignText, state = \<lparr>state_checked = Index 2\<rparr>\<rparr>)) = Index 2
   \<and> \<not> validIndices (length (childList (children alignTextShrunk)))
         (state_checked (state (rerender alignTextShrunk
            \<lparr>props = alignText, state = \<lparr>state_checked = Index 2\<rparr>\<rparr>)))"
  by (simp add: mount_def rerender_def initialState_def js_or_def findDefaultChecked_def
      alignText_def alignTextShrunk_def groupOf_def plainButton_def handleClick_def
      setState_def updater_def isControlled_def validIndices_def)

subsection \<open>Decoration of the children\<close>

lemma decorate_checked_update: "decorate (p\<lparr>checked := x\<rparr>) c = decorate p c"
  by (intro ext) (simp add: decorate_def Let_def)

lemma decorate_scalar_singleton:
  "decorate p (Some (Index n)) = decorate p (Some (Indices [n]))"
  by (intro ext) (simp add: decorate_def Let_def)

lemma map_mapIndexed:
  "(\<And>x j. g (f x j) = h x) \<Longrightarrow> map g (mapIndexed f xs k) = map h xs"
  by (induction xs arbitrary: k) simp_all

lemma btn_variant_decorate:
  "btn_variant (decorate p c child j) =
     (case variant p of None \<Rightarrow> btn_variant child | Some v \<Rightarrow> Some v)"
  by (simp add: decorate_def cloneElement_def Let_def split: option.splits)

lemma btn_size_decorate:
  "btn_size (decorate p c child j) =
     (case size_prop p of None \<Rightarrow> btn_defaultProps_size child | Some s \<Rightarrow> Some s)"
  by (simp add: decorate_def cloneElement_def Let_def split: option.splits)

text \<open>
  C4, as the code has it. When the group has a variant, every rendered child gets
  the group's variant, whatever variant the child has of its own; a child keeps its
  own variant only when the group has none. The group's size goes to every child
  without condition: a rendered child has the group's size, or the default size of
  its element type when the group has no size, and never a size of its own.
\<close>

theorem group_variant_and_size_propagation:
  "map btn_variant (render p st) =
     map (\<lambda>child. case variant p of None \<Rightarrow> btn_variant child | Some v \<Rightarrow> Some v)
       (childList (children p))
   \<and> map btn_size (render p st) =
     map (\<lambda>child. case size_prop p of None \<Rightarrow> btn_defaultProps_size child | Some s \<Rightarrow> Some s)
       (childList (children p))"
  unfolding render_def Children_map_def
  by (simp add: map_mapIndexed btn_variant_decorate btn_size_decorate)

theorem group_variant_and_size_propagation_witness:
  "map btn_variant (render sentiments (initialState sentiments))
       = [Some Success, Some Warning, Some Danger]
   \<and> map btn_size (render sentiments (initialState sentiments))
       = [Some Large, Some Large, Some Large]
   \<and> map btn_size (render sentimentsDanger (initialState sentimentsDanger))
       = [Some Jumbo, Some Jumbo, Some Jumbo]"
  using group_variant_and_size_propagation [of sentiments "initialState sentiments"]
    group_variant_and_size_propagation [of sentimentsDanger "initialState sentimentsDanger"]
  by (simp add: sentimentsDanger_def sentiments_def groupOf_def plainButton_def)

text \<open>
  C4 as stated fails: in the "Sentiments" group with \<open>variant="danger"\<close> on the
  group, the Buttons of variants success and warning are rendered with the variant
  danger.
\<close>

theorem child_variant_overridden:
  "map btn_variant (childList (children sentimentsDanger))
       = [Some Success, Some Warning, Some Danger]
   \<and> variant sentimentsDanger = Some Danger
   \<and> map btn_variant (render sentimentsDanger (initialState sentimentsDanger))
       = [Some Danger, Some Danger, Some Danger]"
  by (simp add: sentimentsDanger_def sentiments_def groupOf_def plainButton_def render_def
      Children_map_def btn_variant_decorate)

text \<open>
  C10. A selection that is the number \<open>n\<close> and a selection that is the array \<open>[n]\<close>
  check the same children: \<open>isChecked\<close> agrees on every index, the decoration of
  every child agrees, and so does the whole rendering, whether the selection comes
  from the prop \<open>checked\<close> (controlled) or from the state (uncontrolled).
\<close>

theorem isChecked_scalar_singleton:
  "isChecked (Some (Index n)) i = isChecked (Some (Indices [n])) i
   \<and> isChecked (Some (Index n)) i = (i = n)
   \<and> decorate p (Some (Index n)) child i = decorate p (Some (Indices [n])) child i
   \<and> render (p\<lparr>checked := Some (Some (Index n))\<rparr>) st
       = render (p\<lparr>checked := Some (Some (Indices [n]))\<rparr>) st
   \<and> render (p\<lparr>checked := None\<rparr>) \<lparr>state_checked = Index n\<rparr>
       = render (p\<lparr>checked := None\<rparr>) \<lparr>state_checked = Indices [n]\<rparr>"
  by (auto simp: render_def getControllableValue_def isControlled_def
      decorate_checked_update decorate_scalar_singleton)

theorem isChecked_scalar_singleton_witness:
  "isChecked (Some (Index 2)) 2 = isChecked (Some (Indices [2])) 2
   \<and> isChecked (Some (Indices [2])) 2
   \<and> isChecked (Some (Index 2)) 1 = isChecked (Some (Indices [2])) 1
   \<and> \<not> isChecked (Some (Indices [2])) 1"
  using isChecked_scalar_singleton [of 2 2 alignText plainButton "initialState alignText"]
    isChecked_scalar_singleton [of 2 1 alignText plainButton "initialState alignText"]
  by simp

end
